theory Spec2Isabelle
  imports Main "HOL-Library.Sublist" "HOL-Library.Word"
begin

section \<open>Preset schema (app/domain/todo/schema/preset.py)\<close>

text \<open>
  The pydantic models are plain data. Field names are those of the source; where two
  models share a field name, the name carries a prefix for its model, since the
  selectors of a theory share one name space.

  A \<open>float\<close> value of \<open>goal_ratios\<close> is only ever handed on to the tag service; it is
  kept as its IEEE 754 bit pattern.
\<close>

datatype float = Float "64 word"

record PresetTag =
  tag_name :: string
  tag_color :: string
  tag_description :: "string option"

record PresetTagGroup =
  group_name :: string
  group_color :: string
  group_description :: "string option"
  goal_ratios :: "(string \<times> float) list option"
  is_todo_group :: bool

datatype PresetTodo =
  PresetTodo (title: string) (description: "string option")
             (tag_names: "string list option") (children: "PresetTodo list option")

record Preset =
  p_name :: string
  p_description :: "string option"
  p_tag_group :: PresetTagGroup
  p_tags :: "PresetTag list"
  p_todos :: "PresetTodo list"

record PresetInfo =
  info_name :: string
  info_description :: "string option"
  tag_count :: int
  todo_count :: int

record PresetInitializeResult =
  preset_name :: string
  tag_group_id :: string
  tags_created :: int
  todos_created :: int


section \<open>Exceptions, identifiers and the collaborators\<close>

text \<open>
  Exceptions are values. \<open>ValueError\<close> stands for \<open>ValueError\<close> and those of its
  subclasses that are not \<open>json.JSONDecodeError\<close> (pydantic's \<open>ValidationError\<close>,
  \<open>UnicodeDecodeError\<close>); \<open>OtherException\<close> is any exception whose class is outside
  the \<open>ValueError\<close> hierarchy and is none of the others (an \<open>OSError\<close> of \<open>open\<close>,
  an error of the persistence layer).
\<close>

datatype py_exn =
  PresetNotFoundError string
| JSONDecodeError
| ValueError
| KeyError string
| OtherException string

text \<open>A UUID is represented by its canonical text, which is what \<open>str\<close> returns.\<close>

datatype UUID = UUID (str: string)

record TagGroupCreate =
  tgc_name :: string
  tgc_color :: string
  tgc_description :: "string option"
  tgc_goal_ratios :: "(string \<times> float) list option"
  tgc_is_todo_group :: bool

record TagCreate =
  tc_name :: string
  tc_color :: string
  tc_description :: "string option"
  tc_group_id :: UUID

record TodoCreate =
  td_title :: string
  td_description :: "string option"
  td_tag_group_id :: UUID
  td_tag_ids :: "UUID list option"
  td_parent_id :: "UUID option"

text \<open>
  \<open>TagService\<close> and \<open>TodoService\<close> live in other modules of the application
  (\<open>app.domain.tag.service\<close>, \<open>app.domain.todo.service\<close>); here they are
  parameters. Each creation takes the request and the state \<open>'s\<close> of the persistence
  layer, and gives back the new state with either the identifier of the created row or
  the exception it raised. Building the request object and calling the service is one
  fallible step.
\<close>

record 's PresetService =
  create_tag_group :: "TagGroupCreate \<Rightarrow> 's \<Rightarrow> (py_exn + UUID) \<times> 's"
  create_tag :: "TagCreate \<Rightarrow> 's \<Rightarrow> (py_exn + UUID) \<times> 's"
  create_todo :: "TodoCreate \<Rightarrow> 's \<Rightarrow> (py_exn + UUID) \<times> 's"

text \<open>
  The world threaded through a call: the state of the persistence layer and, as a
  record of what the call did, the creations that succeeded so far, oldest first, each
  with the request sent and the identifier that came back.
\<close>

datatype event =
  TagGroupCreated TagGroupCreate UUID
| TagCreated TagCreate UUID
| TodoCreated TodoCreate UUID

record 's world =
  db :: 's
  history :: "event list"

definition tag_service_create_tag_group ::
  "'s PresetService \<Rightarrow> TagGroupCreate \<Rightarrow> 's world \<Rightarrow> (py_exn + UUID) \<times> 's world" where
  "tag_service_create_tag_group self req w =
     (case create_tag_group self req (db w) of
        (Inl e, s) \<Rightarrow> (Inl e, w\<lparr>db := s\<rparr>)
      | (Inr u, s) \<Rightarrow> (Inr u, w\<lparr>db := s, history := history w @ [TagGroupCreated req u]\<rparr>))"

definition tag_service_create_tag ::
  "'s PresetService \<Rightarrow> TagCreate \<Rightarrow> 's world \<Rightarrow> (py_exn + UUID) \<times> 's world" where
  "tag_service_create_tag self req w =
     (case create_tag self req (db w) of
        (Inl e, s) \<Rightarrow> (Inl e, w\<lparr>db := s\<rparr>)
      | (Inr u, s) \<Rightarrow> (Inr u, w\<lparr>db := s, history := history w @ [TagCreated req u]\<rparr>))"

definition todo_service_create_todo ::
  "'s PresetService \<Rightarrow> TodoCreate \<Rightarrow> 's world \<Rightarrow> (py_exn + UUID) \<times> 's world" where
  "todo_service_create_todo self req w =
     (case create_todo self req (db w) of
        (Inl e, s) \<Rightarrow> (Inl e, w\<lparr>db := s\<rparr>)
      | (Inr u, s) \<Rightarrow> (Inr u, w\<lparr>db := s, history := history w @ [TodoCreated req u]\<rparr>))"

text \<open>
  The file system and the two library calls of \<open>_load_preset_file\<close> are parameters as
  well: \<open>PRESETS_DIR\<close>, pathlib's \<open>/\<close>, \<open>Path.exists\<close>, \<open>PRESETS_DIR.glob("*.json")\<close>
  (in the order the iterator yields), \<open>open\<close> with \<open>json.load\<close>, and
  \<open>Preset.model_validate\<close>.

  \<open>Path.exists\<close> calls \<open>os.stat\<close>. It answers \<open>False\<close> when the error of \<open>stat\<close> says that
  there is no such file, and raises every other \<open>OSError\<close> again: a file name that is too
  long (\<open>ENAMETOOLONG\<close>), a directory on the way that may not be searched (\<open>EACCES\<close>).
  \<open>path_exists\<close> says whether a path names something that is there; \<open>stat_error\<close> is the
  error that \<open>Path.exists\<close> raises again for a path, if there is one.
\<close>

record ('p, 'j) env =
  PRESETS_DIR :: 'p
  path_div :: "'p \<Rightarrow> string \<Rightarrow> 'p"
  path_exists :: "'p \<Rightarrow> bool"
  stat_error :: "'p \<Rightarrow> py_exn option"
  glob_json :: "'p \<Rightarrow> 'p list"
  open_json_load :: "'p \<Rightarrow> py_exn + 'j"
  model_validate :: "'j \<Rightarrow> py_exn + Preset"


section \<open>Preset service (app/domain/todo/preset_service.py)\<close>

definition get_preset_path :: "('p, 'j) env \<Rightarrow> string \<Rightarrow> 'p" where
  "get_preset_path env name = path_div env (PRESETS_DIR env) (name @ ''.json'')"

definition load_preset_file :: "('p, 'j) env \<Rightarrow> 'p \<Rightarrow> py_exn + Preset" where
  "load_preset_file env preset_path =
     (case open_json_load env preset_path of
        Inl e \<Rightarrow> Inl e
      | Inr data \<Rightarrow> model_validate env data)"

text \<open>
  \<open>_count_todos_recursive\<close>: \<open>count\<close> starts at \<open>len(todos)\<close>; the loop adds the count
  of the children of every node whose \<open>children\<close> is truthy (neither \<open>None\<close> nor empty).
\<close>

fun count_todos_recursive :: "PresetTodo list \<Rightarrow> int"
  and count_todos_loop :: "PresetTodo list \<Rightarrow> int \<Rightarrow> int" where
  "count_todos_recursive todos = count_todos_loop todos (int (length todos))"
| "count_todos_loop [] count = count"
| "count_todos_loop (PresetTodo t d tn ch # rest) count =
     count_todos_loop rest
       (case ch of
          None \<Rightarrow> count
        | Some cs \<Rightarrow> if cs \<noteq> [] then count + count_todos_recursive cs else count)"

text \<open>
  \<open>list_presets\<close>: the \<open>except\<close> clause names \<open>json.JSONDecodeError\<close> and \<open>ValueError\<close>;
  any other exception leaves the loop and the function.
\<close>

fun caught_by_list_presets :: "py_exn \<Rightarrow> bool" where
  "caught_by_list_presets JSONDecodeError = True"
| "caught_by_list_presets ValueError = True"
| "caught_by_list_presets _ = False"

fun list_presets_loop ::
  "('p, 'j) env \<Rightarrow> 'p list \<Rightarrow> PresetInfo list \<Rightarrow> py_exn + PresetInfo list" where
  "list_presets_loop env [] presets = Inr presets"
| "list_presets_loop env (preset_file # files) presets =
     (case load_preset_file env preset_file of
        Inl e \<Rightarrow>
          if caught_by_list_presets e then list_presets_loop env files presets else Inl e
      | Inr preset \<Rightarrow>
          list_presets_loop env files
            (presets @
             [\<lparr>info_name = p_name preset,
               info_description = p_description preset,
               tag_count = int (length (p_tags preset)),
               todo_count = count_todos_recursive (p_todos preset)\<rparr>]))"

text \<open>
  \<open>PRESETS_DIR\<close> is fixed when the module is loaded, next to the package that is
  running, and no argument reaches it: its \<open>exists()\<close> is taken to answer.
\<close>

definition list_presets :: "('p, 'j) env \<Rightarrow> py_exn + PresetInfo list" where
  "list_presets env =
     (if \<not> path_exists env (PRESETS_DIR env) then Inr []
      else list_presets_loop env (glob_json env (PRESETS_DIR env)) [])"

text \<open>
  \<open>get_preset\<close>: the path comes from the name the caller gives, so the call of
  \<open>preset_path.exists()\<close> may raise; nothing in \<open>get_preset\<close> catches that.
\<close>

definition Path_exists :: "('p, 'j) env \<Rightarrow> 'p \<Rightarrow> py_exn + bool" where
  "Path_exists env path =
     (case stat_error env path of
        Some e \<Rightarrow> Inl e
      | None \<Rightarrow> Inr (path_exists env path))"

definition get_preset :: "('p, 'j) env \<Rightarrow> string \<Rightarrow> py_exn + Preset" where
  "get_preset env name =
     (let preset_path = get_preset_path env name in
      case Path_exists env preset_path of
        Inl e \<Rightarrow> Inl e
      | Inr there \<Rightarrow>
          if \<not> there then Inl (PresetNotFoundError name)
          else load_preset_file env preset_path)"

text \<open>
  The tag loop of \<open>initialize_from_preset\<close> (step 2), with the dictionary
  \<open>tag_name_to_id\<close> as a map.
\<close>

fun create_tags_loop ::
  "'s PresetService \<Rightarrow> PresetTag list \<Rightarrow> UUID \<Rightarrow> (string \<rightharpoonup> UUID) \<Rightarrow> 's world
     \<Rightarrow> (py_exn + (string \<rightharpoonup> UUID)) \<times> 's world" where
  "create_tags_loop self [] group_id tag_name_to_id w = (Inr tag_name_to_id, w)"
| "create_tags_loop self (preset_tag # rest) group_id tag_name_to_id w =
     (case tag_service_create_tag self
             \<lparr>tc_name = tag_name preset_tag,
              tc_color = tag_color preset_tag,
              tc_description = tag_description preset_tag,
              tc_group_id = group_id\<rparr> w of
        (Inl e, w') \<Rightarrow> (Inl e, w')
      | (Inr tag_id, w') \<Rightarrow>
          create_tags_loop self rest group_id
            (tag_name_to_id(tag_name preset_tag \<mapsto> tag_id)) w')"

text \<open>
  The conversion of tag names at the head of the todo loop. A subscript
  \<open>tag_name_to_id[name]\<close> raises \<open>KeyError\<close> on a missing key; the comprehension
  guards it with \<open>name in tag_name_to_id\<close>.
\<close>

definition dict_getitem :: "(string \<rightharpoonup> UUID) \<Rightarrow> string \<Rightarrow> py_exn + UUID" where
  "dict_getitem m k = (case m k of None \<Rightarrow> Inl (KeyError k) | Some v \<Rightarrow> Inr v)"

fun tag_ids_comprehension :: "(string \<rightharpoonup> UUID) \<Rightarrow> string list \<Rightarrow> py_exn + UUID list" where
  "tag_ids_comprehension tag_name_to_id [] = Inr []"
| "tag_ids_comprehension tag_name_to_id (name # names) =
     (if tag_name_to_id name \<noteq> None then
        (case dict_getitem tag_name_to_id name of
           Inl e \<Rightarrow> Inl e
         | Inr u \<Rightarrow>
             (case tag_ids_comprehension tag_name_to_id names of
                Inl e \<Rightarrow> Inl e
              | Inr us \<Rightarrow> Inr (u # us)))
      else tag_ids_comprehension tag_name_to_id names)"

definition todo_tag_ids ::
  "(string \<rightharpoonup> UUID) \<Rightarrow> string list option \<Rightarrow> py_exn + UUID list option" where
  "todo_tag_ids tag_name_to_id names_opt =
     (case names_opt of
        None \<Rightarrow> Inr None
      | Some names \<Rightarrow>
          if names \<noteq> [] then
            (case tag_ids_comprehension tag_name_to_id names of
               Inl e \<Rightarrow> Inl e
             | Inr ids \<Rightarrow> Inr (Some ids))
          else Inr None)"

text \<open>
  \<open>_create_todos_recursive\<close>: the loop carries \<open>created_count\<close>; it creates the node,
  then descends into truthy \<open>children\<close> with the new identifier as parent, then goes on
  with the next sibling. The first exception ends the whole call.
\<close>

fun create_todos_recursive ::
  "'s PresetService \<Rightarrow> PresetTodo list \<Rightarrow> UUID \<Rightarrow> (string \<rightharpoonup> UUID) \<Rightarrow> UUID option
     \<Rightarrow> 's world \<Rightarrow> (py_exn + int) \<times> 's world"
  and create_todos_loop ::
  "'s PresetService \<Rightarrow> PresetTodo list \<Rightarrow> UUID \<Rightarrow> (string \<rightharpoonup> UUID) \<Rightarrow> UUID option
     \<Rightarrow> int \<Rightarrow> 's world \<Rightarrow> (py_exn + int) \<times> 's world" where
  "create_todos_recursive self preset_todos group_id tag_name_to_id parent_id w =
     create_todos_loop self preset_todos group_id tag_name_to_id parent_id 0 w"
| "create_todos_loop self [] group_id tag_name_to_id parent_id created_count w =
     (Inr created_count, w)"
| "create_todos_loop self (PresetTodo t d tn ch # rest) group_id tag_name_to_id parent_id
       created_count w =
     (case todo_tag_ids tag_name_to_id tn of
        Inl e \<Rightarrow> (Inl e, w)
      | Inr tag_ids \<Rightarrow>
          (case todo_service_create_todo self
                  \<lparr>td_title = t, td_description = d, td_tag_group_id = group_id,
                   td_tag_ids = tag_ids, td_parent_id = parent_id\<rparr> w of
             (Inl e, w') \<Rightarrow> (Inl e, w')
           | (Inr todo_id, w') \<Rightarrow>
               (case ch of
                  None \<Rightarrow>
                    create_todos_loop self rest group_id tag_name_to_id parent_id
                      (created_count + 1) w'
                | Some cs \<Rightarrow>
                    if cs \<noteq> [] then
                      (case create_todos_recursive self cs group_id tag_name_to_id
                              (Some todo_id) w' of
                         (Inl e, w'') \<Rightarrow> (Inl e, w'')
                       | (Inr n, w'') \<Rightarrow>
                           create_todos_loop self rest group_id tag_name_to_id parent_id
                             (created_count + 1 + n) w'')
                    else
                      create_todos_loop self rest group_id tag_name_to_id parent_id
                        (created_count + 1) w')))"

definition initialize_from_preset ::
  "'s PresetService \<Rightarrow> ('p, 'j) env \<Rightarrow> string \<Rightarrow> 's world
     \<Rightarrow> (py_exn + PresetInitializeResult) \<times> 's world" where
  "initialize_from_preset self env name w =
     (case get_preset env name of
        Inl e \<Rightarrow> (Inl e, w)
      | Inr preset \<Rightarrow>
          (case tag_service_create_tag_group self
                  \<lparr>tgc_name = group_name (p_tag_group preset),
                   tgc_color = group_color (p_tag_group preset),
                   tgc_description = group_description (p_tag_group preset),
                   tgc_goal_ratios = goal_ratios (p_tag_group preset),
                   tgc_is_todo_group = is_todo_group (p_tag_group preset)\<rparr> w of
             (Inl e, w1) \<Rightarrow> (Inl e, w1)
           | (Inr group_id, w1) \<Rightarrow>
               (case create_tags_loop self (p_tags preset) group_id Map.empty w1 of
                  (Inl e, w2) \<Rightarrow> (Inl e, w2)
                | (Inr tag_name_to_id, w2) \<Rightarrow>
                    (case create_todos_recursive self (p_todos preset) group_id
                            tag_name_to_id None w2 of
                       (Inl e, w3) \<Rightarrow> (Inl e, w3)
                     | (Inr n, w3) \<Rightarrow>
                         (Inr \<lparr>preset_name = name,
                               tag_group_id = str group_id,
                               tags_created = int (length (p_tags preset)),
                               todos_created = n\<rparr>, w3)))))"

section \<open>Notions used to state the properties\<close>

text \<open>
  All nodes of a forest, every descendant at every depth included, in document order:
  a node, then the nodes below it, then its next sibling.
\<close>

fun subtree_nodes :: "PresetTodo \<Rightarrow> PresetTodo list"
  and forest_nodes :: "PresetTodo list \<Rightarrow> PresetTodo list" where
  "subtree_nodes (PresetTodo t d tn None) = [PresetTodo t d tn None]"
| "subtree_nodes (PresetTodo t d tn (Some cs)) = PresetTodo t d tn (Some cs) # forest_nodes cs"
| "forest_nodes [] = []"
| "forest_nodes (x # xs) = subtree_nodes x @ forest_nodes xs"

text \<open>The children of a node as a list: none for \<open>None\<close>.\<close>

definition child_list :: "PresetTodo \<Rightarrow> PresetTodo list" where
  "child_list todo = (case children todo of None \<Rightarrow> [] | Some cs \<Rightarrow> cs)"

text \<open>
  The forest of the unit test \<open>test_count_todos_recursive\<close>: one root with two
  children, one of which has one child, and one standalone root.
\<close>

definition example_forest :: "PresetTodo list" where
  "example_forest =
     [PresetTodo ''Parent 1'' None None
        (Some [PresetTodo ''Child 1.1'' None None None,
               PresetTodo ''Child 1.2'' None None
                 (Some [PresetTodo ''Grandchild 1.2.1'' None None None])]),
      PresetTodo ''Parent 2'' None None None]"


text \<open>
  What a call added to the history, and the todo creations among a list of events.
\<close>

definition new_events :: "'s world \<Rightarrow> 's world \<Rightarrow> event list" where
  "new_events w w' = drop (length (history w)) (history w')"

fun todo_creations :: "event list \<Rightarrow> (TodoCreate \<times> UUID) list" where
  "todo_creations [] = []"
| "todo_creations (TodoCreated req u # es) = (req, u) # todo_creations es"
| "todo_creations (_ # es) = todo_creations es"

fun tag_creations :: "event list \<Rightarrow> (TagCreate \<times> UUID) list" where
  "tag_creations [] = []"
| "tag_creations (TagCreated req u # es) = (req, u) # tag_creations es"
| "tag_creations (_ # es) = tag_creations es"


text \<open>
  The tag identifiers a node is expected to carry under a given dictionary: nothing
  when \<open>tag_names\<close> is \<open>None\<close> or empty, otherwise the identifiers of the names the
  dictionary knows, in the order of the names.
\<close>

definition attached_tag_ids ::
  "(string \<rightharpoonup> UUID) \<Rightarrow> string list option \<Rightarrow> UUID list option" where
  "attached_tag_ids m names_opt =
     (case names_opt of
        None \<Rightarrow> None
      | Some names \<Rightarrow>
          if names = [] then None
          else Some (map (\<lambda>n. the (m n)) (filter (\<lambda>n. m n \<noteq> None) names)))"

text \<open>The request expected for a node, the parent reference left aside.\<close>

definition node_request :: "UUID \<Rightarrow> (string \<rightharpoonup> UUID) \<Rightarrow> PresetTodo \<Rightarrow> TodoCreate" where
  "node_request group_id m node =
     \<lparr>td_title = title node, td_description = description node,
      td_tag_group_id = group_id, td_tag_ids = attached_tag_ids m (tag_names node),
      td_parent_id = None\<rparr>"

definition without_parent :: "TodoCreate \<times> UUID \<Rightarrow> TodoCreate" where
  "without_parent c = (fst c)\<lparr>td_parent_id := None\<rparr>"

text \<open>
  Every parent reference in a sequence of creations is one of the references in \<open>A\<close>
  or the identifier of a creation earlier in the sequence.
\<close>

fun parents_known :: "UUID option set \<Rightarrow> (TodoCreate \<times> UUID) list \<Rightarrow> bool" where
  "parents_known A [] = True"
| "parents_known A (c # cs) =
     (td_parent_id (fst c) \<in> A \<and> parents_known (insert (Some (snd c)) A) cs)"

text \<open>The collaborator that creates todos raises this exception on some request.\<close>

definition raised_by_create_todo :: "'s PresetService \<Rightarrow> py_exn \<Rightarrow> bool" where
  "raised_by_create_todo self e \<longleftrightarrow> (\<exists>req s. fst (create_todo self req s) = Inl e)"

definition raised_by_create_tag :: "'s PresetService \<Rightarrow> py_exn \<Rightarrow> bool" where
  "raised_by_create_tag self e \<longleftrightarrow> (\<exists>req s. fst (create_tag self req s) = Inl e)"

text \<open>A persistence layer none of whose creations ever raises.\<close>

definition never_raises :: "'s PresetService \<Rightarrow> bool" where
  "never_raises self \<longleftrightarrow>
     (\<forall>req s. \<exists>u. fst (create_tag_group self req s) = Inr u) \<and>
     (\<forall>req s. \<exists>u. fst (create_tag self req s) = Inr u) \<and>
     (\<forall>req s. \<exists>u. fst (create_todo self req s) = Inr u)"

text \<open>
  The creations that materialise a forest under a parent reference: each node is
  created with that reference, its children follow at once, created under the
  identifier that came back for the node, and then its next siblings follow, in the
  order of the list.
\<close>

inductive created_as ::
  "UUID \<Rightarrow> (string \<rightharpoonup> UUID) \<Rightarrow> UUID option \<Rightarrow> PresetTodo list
     \<Rightarrow> (TodoCreate \<times> UUID) list \<Rightarrow> bool" where
  created_none: "created_as group_id m parent [] []"
| created_node:
    "created_as group_id m (Some u) (child_list x) below
     \<Longrightarrow> created_as group_id m parent rest after
     \<Longrightarrow> created_as group_id m parent (x # rest)
           (((node_request group_id m x)\<lparr>td_parent_id := parent\<rparr>, u) # below @ after)"

text \<open>
  What one run of the todo loop did, seen from outside: it appended todo creations
  \<open>cs\<close> and nothing else to the history; their requests, parent aside, are those of an
  initial stretch of the forest in document order; every parent reference is the
  \<open>parent\<close> handed in or an identifier created earlier in the run; and the run either
  returned, having created every node as \<open>created_as\<close> says and counted it, or stopped
  at an exception that came out of the todo service.
\<close>

definition todos_run ::
  "'s PresetService \<Rightarrow> PresetTodo list \<Rightarrow> UUID \<Rightarrow> (string \<rightharpoonup> UUID) \<Rightarrow> UUID option \<Rightarrow> int
     \<Rightarrow> 's world \<Rightarrow> (py_exn + int) \<Rightarrow> 's world \<Rightarrow> bool" where
  "todos_run self todos group_id m parent c w r w' \<longleftrightarrow>
     (\<exists>cs. history w' = history w @ map (\<lambda>c. TodoCreated (fst c) (snd c)) cs
        \<and> prefix (map without_parent cs) (map (node_request group_id m) (forest_nodes todos))
        \<and> parents_known {parent} cs
        \<and> (case r of
             Inr n \<Rightarrow> length cs = length (forest_nodes todos) \<and> n = c + int (length cs)
                      \<and> created_as group_id m parent todos cs
           | Inl e \<Rightarrow> length cs < length (forest_nodes todos) \<and> raised_by_create_todo self e))"

text \<open>The request expected for a tag of the preset, and the same view of the tag loop.\<close>

definition tag_request :: "UUID \<Rightarrow> PresetTag \<Rightarrow> TagCreate" where
  "tag_request group_id preset_tag =
     \<lparr>tc_name = tag_name preset_tag, tc_color = tag_color preset_tag,
      tc_description = tag_description preset_tag, tc_group_id = group_id\<rparr>"

definition tags_run ::
  "'s PresetService \<Rightarrow> PresetTag list \<Rightarrow> UUID \<Rightarrow> (string \<rightharpoonup> UUID) \<Rightarrow> 's world
     \<Rightarrow> (py_exn + (string \<rightharpoonup> UUID)) \<Rightarrow> 's world \<Rightarrow> bool" where
  "tags_run self tags group_id m0 w r w' \<longleftrightarrow>
     (\<exists>cs. history w' = history w @ map (\<lambda>c. TagCreated (fst c) (snd c)) cs
        \<and> prefix (map fst cs) (map (tag_request group_id) tags)
        \<and> (case r of
             Inr m \<Rightarrow> length cs = length tags
                      \<and> m = m0 ++ map_of (rev (zip (map tag_name tags) (map snd cs)))
           | Inl e \<Rightarrow> length cs < length tags \<and> raised_by_create_tag self e))"

text \<open>The request expected for the tag group of a preset.\<close>

definition tag_group_request :: "Preset \<Rightarrow> TagGroupCreate" where
  "tag_group_request preset =
     \<lparr>tgc_name = group_name (p_tag_group preset),
      tgc_color = group_color (p_tag_group preset),
      tgc_description = group_description (p_tag_group preset),
      tgc_goal_ratios = goal_ratios (p_tag_group preset),
      tgc_is_todo_group = is_todo_group (p_tag_group preset)\<rparr>"

text \<open>
  The summary of a preset, and the summaries of those of a list of files that load, one
  for each, in the order of the files.
\<close>

definition preset_info :: "Preset \<Rightarrow> PresetInfo" where
  "preset_info preset =
     \<lparr>info_name = p_name preset, info_description = p_description preset,
      tag_count = int (length (p_tags preset)),
      todo_count = int (length (forest_nodes (p_todos preset)))\<rparr>"

definition loadable_infos :: "('p, 'j) env \<Rightarrow> 'p list \<Rightarrow> PresetInfo list" where
  "loadable_infos env files =
     concat (map (\<lambda>f. case load_preset_file env f of
                          Inl e \<Rightarrow> []
                        | Inr preset \<Rightarrow> [preset_info preset]) files)"


section \<open>Concrete presets, files and services for the examples\<close>

text \<open>The scenario of the specification: one tag, one root todo with one child.\<close>

definition study_preset :: Preset where
  "study_preset =
     \<lparr>p_name = ''study'', p_description = None,
      p_tag_group = \<lparr>group_name = ''Study'', group_color = ''#FF0000'',
                     group_description = None, goal_ratios = None, is_todo_group = True\<rparr>,
      p_tags = [\<lparr>tag_name = ''Math'', tag_color = ''#00FF00'', tag_description = None\<rparr>],
      p_todos = [PresetTodo ''Read'' None (Some [''Math''])
                   (Some [PresetTodo ''Chapter 1'' None None None])]\<rparr>"

text \<open>
  A preset whose own name is not the name of its file, with a repeated tag name and
  with tag names that no tag of the preset carries.
\<close>

definition project_preset :: Preset where
  "project_preset =
     \<lparr>p_name = ''project'', p_description = Some ''Team project'',
      p_tag_group = \<lparr>group_name = ''Work'', group_color = ''#0000FF'',
                     group_description = None, goal_ratios = None, is_todo_group = True\<rparr>,
      p_tags = [\<lparr>tag_name = ''Dev'', tag_color = ''#111111'', tag_description = None\<rparr>,
                \<lparr>tag_name = ''Ops'', tag_color = ''#222222'', tag_description = None\<rparr>,
                \<lparr>tag_name = ''Dev'', tag_color = ''#333333'', tag_description = None\<rparr>],
      p_todos = [PresetTodo ''Plan'' None (Some [''Ops'', ''Ghost'', ''Dev''])
                   (Some [PresetTodo ''Draft'' None (Some [''Ghost'']) None,
                          PresetTodo ''Review'' None (Some []) (Some [])]),
                 PresetTodo ''Ship'' None None None]\<rparr>"

text \<open>
  A preset directory with four files: two presets, one file that is not JSON and one
  whose colour fails validation. Paths and documents are both named by strings. A file
  name may have 255 bytes, which with \<open>presets/\<close> in front makes 263: for a longer path
  \<open>stat\<close> fails with \<open>ENAMETOOLONG\<close>.
\<close>

definition example_env :: "(string, string) env" where
  "example_env =
     \<lparr>PRESETS_DIR = ''presets'',
      path_div = (\<lambda>d f. d @ ''/'' @ f),
      path_exists = (\<lambda>p. p \<in> set [''presets'', ''presets/study.json'', ''presets/bad.json'',
                                    ''presets/work.json'', ''presets/hue.json'']),
      stat_error = (\<lambda>p. if 263 < length p
                         then Some (OtherException ''OSError: [Errno 36] File name too long'')
                         else None),
      glob_json = (\<lambda>d. [''presets/study.json'', ''presets/bad.json'',
                         ''presets/work.json'', ''presets/hue.json'']),
      open_json_load = (\<lambda>p. if p = ''presets/bad.json'' then Inl JSONDecodeError else Inr p),
      model_validate = (\<lambda>j. if j = ''presets/study.json'' then Inr study_preset
                             else if j = ''presets/work.json'' then Inr project_preset
                             else Inl ValueError)\<rparr>"


text \<open>The same machine without the preset directory.\<close>

definition bare_env :: "(string, string) env" where
  "bare_env = example_env\<lparr>path_exists := (\<lambda>p. False), glob_json := (\<lambda>d. [])\<rparr>"

text \<open>
  A preset directory in which \<open>locked.json\<close> cannot be opened: \<open>open\<close> raises
  \<open>PermissionError\<close>, an \<open>OSError\<close>.
\<close>

definition locked_env :: "(string, string) env" where
  "locked_env =
     example_env\<lparr>glob_json := (\<lambda>d. [''presets/study.json'', ''presets/locked.json'']),
                 open_json_load := (\<lambda>p. if p = ''presets/locked.json''
                                          then Inl (OtherException ''PermissionError'')
                                          else Inr p)\<rparr>"

text \<open>A persistence layer that numbers the rows it creates; its state is the next number.\<close>

definition row_id :: "nat \<Rightarrow> UUID" where
  "row_id n = UUID (''row'' @ replicate n (CHR ''+''))"

definition counter_service :: "nat PresetService" where
  "counter_service =
     \<lparr>create_tag_group = (\<lambda>req n. (Inr (row_id n), Suc n)),
      create_tag = (\<lambda>req n. (Inr (row_id n), Suc n)),
      create_todo = (\<lambda>req n. (Inr (row_id n), Suc n))\<rparr>"

definition empty_world :: "nat world" where
  "empty_world = \<lparr>db = 0, history = []\<rparr>"


text \<open>
  A dictionary of tag identifiers for the todos of \<open>project_preset\<close>, and the world that
  creating these todos under it leaves behind, starting from the empty one.
\<close>

definition example_tag_ids :: "string \<rightharpoonup> UUID" where
  "example_tag_ids = [''Dev'' \<mapsto> UUID ''d'', ''Ops'' \<mapsto> UUID ''o'']"

definition example_todos_world :: "nat world" where
  "example_todos_world =
     \<lparr>db = 4,
      history =
        [TodoCreated \<lparr>td_title = ''Plan'', td_description = None,
                      td_tag_group_id = UUID ''g'',
                      td_tag_ids = Some [UUID ''o'', UUID ''d''], td_parent_id = None\<rparr>
           (UUID ''row''),
         TodoCreated \<lparr>td_title = ''Draft'', td_description = None,
                      td_tag_group_id = UUID ''g'', td_tag_ids = Some [],
                      td_parent_id = Some (UUID ''row'')\<rparr>
           (UUID ''row+''),
         TodoCreated \<lparr>td_title = ''Review'', td_description = None,
                      td_tag_group_id = UUID ''g'', td_tag_ids = None,
                      td_parent_id = Some (UUID ''row'')\<rparr>
           (UUID ''row++''),
         TodoCreated \<lparr>td_title = ''Ship'', td_description = None,
                      td_tag_group_id = UUID ''g'', td_tag_ids = None,
                      td_parent_id = None\<rparr>
           (UUID ''row+++'')]\<rparr>"



definition example_work_world :: "nat world" where
  "example_work_world =
     \<lparr>db = 8,
      history =
        [TagGroupCreated \<lparr>tgc_name = ''Work'', tgc_color = ''#0000FF'',
                          tgc_description = None, tgc_goal_ratios = None,
                          tgc_is_todo_group = True\<rparr> (UUID ''row''),
         TagCreated \<lparr>tc_name = ''Dev'', tc_color = ''#111111'', tc_description = None,
                     tc_group_id = UUID ''row''\<rparr> (UUID ''row+''),
         TagCreated \<lparr>tc_name = ''Ops'', tc_color = ''#222222'', tc_description = None,
                     tc_group_id = UUID ''row''\<rparr> (UUID ''row++''),
         TagCreated \<lparr>tc_name = ''Dev'', tc_color = ''#333333'', tc_description = None,
                     tc_group_id = UUID ''row''\<rparr> (UUID ''row+++''),
         TodoCreated \<lparr>td_title = ''Plan'', td_description = None,
                      td_tag_group_id = UUID ''row'',
                      td_tag_ids = Some [UUID ''row++'', UUID ''row+++''],
                      td_parent_id = None\<rparr> (UUID ''row++++''),
         TodoCreated \<lparr>td_title = ''Draft'', td_description = None,
                      td_tag_group_id = UUID ''row'', td_tag_ids = Some [],
                      td_parent_id = Some (UUID ''row++++'')\<rparr> (UUID ''row+++++''),
         TodoCreated \<lparr>td_title = ''Review'', td_description = None,
                      td_tag_group_id = UUID ''row'', td_tag_ids = None,
                      td_parent_id = Some (UUID ''row++++'')\<rparr> (UUID ''row++++++''),
         TodoCreated \<lparr>td_title = ''Ship'', td_description = None,
                      td_tag_group_id = UUID ''row'', td_tag_ids = None,
                      td_parent_id = None\<rparr> (UUID ''row+++++++'')]\<rparr>"


section \<open>Properties\<close>

subsection \<open>Counting\<close>

lemma count_todos_nodes:
  "count_todos_recursive todos = int (length (forest_nodes todos))"
  "count_todos_loop todos c = c + int (length (forest_nodes todos)) - int (length todos)"
proof (induction todos and todos c rule: count_todos_recursive_count_todos_loop.induct)
  case (1 todos)
  then show ?case by simp
next
  case (2 count)
  then show ?case by simp
next
  case (3 t d tn ch rest count)
  show ?case
  proof (cases ch)
    case None
    then show ?thesis using 3 by simp
  next
    case (Some cs)
    then show ?thesis using 3 by (cases "cs = []") simp_all
  qed
qed

lemma count_todos_loop_children:
  "count_todos_loop todos c = c + (\<Sum>todo\<leftarrow>todos. count_todos_recursive (child_list todo))"
proof (induction todos arbitrary: c)
  case Nil
  then show ?case by simp
next
  case (Cons x xs)
  obtain t d tn ch where x: "x = PresetTodo t d tn ch" by (cases x)
  show ?case
  proof (cases ch)
    case None
    then show ?thesis using Cons x by (simp add: child_list_def)
  next
    case (Some cs)
    then show ?thesis using Cons x by (cases "cs = []") (simp_all add: child_list_def)
  qed
qed

text \<open>
  Claim C1. For every forest, \<open>_count_todos_recursive\<close> returns the number of all
  nodes of the forest, every descendant at every depth included; this is the number of
  nodes at the top level plus the sum of the counts of the children of each of them; on
  the forest of the unit test (a root with two children, one of which has a child, and a
  standalone root) it returns 5.
\<close>

theorem count_todos_recursive_total:
  "count_todos_recursive todos = int (length (forest_nodes todos))
   \<and> count_todos_recursive todos =
       int (length todos) + (\<Sum>todo\<leftarrow>todos. count_todos_recursive (child_list todo))
   \<and> count_todos_recursive example_forest = 5"
proof (intro conjI)
  show "count_todos_recursive todos = int (length (forest_nodes todos))"
    by (rule count_todos_nodes(1))
  have "count_todos_recursive todos = count_todos_loop todos (int (length todos))"
    by (rule count_todos_recursive.simps)
  also have "\<dots> =
      int (length todos) + (\<Sum>todo\<leftarrow>todos. count_todos_recursive (child_list todo))"
    by (rule count_todos_loop_children)
  finally show "count_todos_recursive todos =
      int (length todos) + (\<Sum>todo\<leftarrow>todos. count_todos_recursive (child_list todo))" .
  show "count_todos_recursive example_forest = 5"
    by (simp add: example_forest_def)
qed


subsection \<open>The todo loop\<close>

lemma comprehension_total:
  "tag_ids_comprehension m names = Inr (map (\<lambda>n. the (m n)) (filter (\<lambda>n. m n \<noteq> None) names))"
  by (induction names) (auto simp: dict_getitem_def)

lemma todo_tag_ids_total: "todo_tag_ids m tn = Inr (attached_tag_ids m tn)"
  by (cases tn) (simp_all add: todo_tag_ids_def attached_tag_ids_def comprehension_total)

lemma parents_known_mono: "parents_known A cs \<Longrightarrow> A \<subseteq> B \<Longrightarrow> parents_known B cs"
proof (induction cs arbitrary: A B)
  case Nil
  then show ?case by simp
next
  case (Cons c cs)
  from Cons.prems have "parents_known (insert (Some (snd c)) A) cs" by simp
  moreover from Cons.prems have "insert (Some (snd c)) A \<subseteq> insert (Some (snd c)) B" by auto
  ultimately have "parents_known (insert (Some (snd c)) B) cs" by (rule Cons.IH)
  with Cons.prems show ?case by auto
qed

lemma parents_known_append:
  "parents_known A (xs @ ys) \<longleftrightarrow>
     parents_known A xs \<and> parents_known (A \<union> Some ` snd ` set xs) ys"
proof (induction xs arbitrary: A)
  case Nil
  then show ?case by simp
next
  case (Cons c cs)
  have "insert (Some (snd c)) A \<union> Some ` snd ` set cs = A \<union> Some ` snd ` set (c # cs)"
    by auto
  with Cons show ?case by simp
qed

lemma todo_service_create_todo_cases:
  assumes "todo_service_create_todo self req w = (r, w')"
  shows "(\<exists>u. r = Inr u \<and> history w' = history w @ [TodoCreated req u])
       \<or> (\<exists>e. r = Inl e \<and> history w' = history w \<and> raised_by_create_todo self e)"
proof (cases "create_todo self req (db w)")
  case (Pair a s)
  show ?thesis
  proof (cases a)
    case (Inl e)
    have "fst (create_todo self req (db w)) = Inl e" using Pair Inl by simp
    then have "raised_by_create_todo self e" unfolding raised_by_create_todo_def by blast
    then show ?thesis using assms Pair Inl by (auto simp: todo_service_create_todo_def)
  next
    case (Inr u)
    then show ?thesis using assms Pair by (auto simp: todo_service_create_todo_def)
  qed
qed

lemma prefix_same_length: "prefix xs ys \<Longrightarrow> length xs = length ys \<Longrightarrow> xs = ys"
  by (auto simp: prefix_def)

lemma subtree_nodes_unfold: "subtree_nodes x = x # forest_nodes (child_list x)"
  by (cases x rule: subtree_nodes.cases(1)) (simp_all add: child_list_def)

lemma forest_nodes_Cons:
  "forest_nodes (x # rest) = x # forest_nodes (child_list x) @ forest_nodes rest"
  by (simp add: subtree_nodes_unfold)

lemma todos_run_Nil: "todos_run self [] group_id m parent c w (Inr c) w"
  unfolding todos_run_def by (rule exI [of _ "[]"]) (simp add: created_none)

lemma todos_run_create_failed:
  assumes "history w1 = history w" and "raised_by_create_todo self e"
  shows "todos_run self (x # rest) group_id m parent c w (Inl e) w1"
  unfolding todos_run_def using assms
  by (intro exI [of _ "[]"]) (simp add: subtree_nodes_unfold)

lemma todos_run_children_failed:
  assumes hist: "history w1 = history w @ [TodoCreated req u]"
    and req: "without_parent (req, u) = node_request group_id m x"
    and par: "td_parent_id req = parent"
    and sub: "todos_run self (child_list x) group_id m (Some u) 0 w1 (Inl e) w2"
  shows "todos_run self (x # rest) group_id m parent c w (Inl e) w2"
proof -
  from sub obtain cs where cs:
    "history w2 = history w1 @ map (\<lambda>c. TodoCreated (fst c) (snd c)) cs"
    "prefix (map without_parent cs) (map (node_request group_id m) (forest_nodes (child_list x)))"
    "parents_known {Some u} cs"
    "length cs < length (forest_nodes (child_list x))"
    "raised_by_create_todo self e"
    unfolding todos_run_def by auto
  let ?all = "(req, u) # cs"
  have h: "history w2 = history w @ map (\<lambda>c. TodoCreated (fst c) (snd c)) ?all"
    using hist cs(1) by simp
  have p: "prefix (map without_parent ?all)
             (map (node_request group_id m) (forest_nodes (x # rest)))"
    using req cs(2) by (simp add: subtree_nodes_unfold)
  have "parents_known (insert (Some u) {parent}) cs"
    using cs(3) by (rule parents_known_mono) simp
  then have k: "parents_known {parent} ?all" using par by simp
  have l: "length ?all < length (forest_nodes (x # rest))"
    using cs(4) by (simp add: subtree_nodes_unfold)
  show ?thesis unfolding todos_run_def
    using h p k l cs(5) by (intro exI [of _ ?all]) simp
qed

lemma todos_run_step:
  assumes hist: "history w1 = history w @ [TodoCreated req u]"
    and req: "without_parent (req, u) = node_request group_id m x"
    and par: "td_parent_id req = parent"
    and sub: "todos_run self (child_list x) group_id m (Some u) 0 w1 (Inr n) w2"
    and nxt: "todos_run self rest group_id m parent (c + 1 + n) w2 r w'"
  shows "todos_run self (x # rest) group_id m parent c w r w'"
proof -
  from sub obtain cs where cs:
    "history w2 = history w1 @ map (\<lambda>c. TodoCreated (fst c) (snd c)) cs"
    "prefix (map without_parent cs) (map (node_request group_id m) (forest_nodes (child_list x)))"
    "parents_known {Some u} cs"
    "length cs = length (forest_nodes (child_list x))"
    "n = int (length cs)"
    "created_as group_id m (Some u) (child_list x) cs"
    unfolding todos_run_def by auto
  from nxt obtain rs where rs:
    "history w' = history w2 @ map (\<lambda>c. TodoCreated (fst c) (snd c)) rs"
    "prefix (map without_parent rs) (map (node_request group_id m) (forest_nodes rest))"
    "parents_known {parent} rs"
    "case r of
       Inr k \<Rightarrow> length rs = length (forest_nodes rest) \<and> k = c + 1 + n + int (length rs)
                \<and> created_as group_id m parent rest rs
     | Inl e \<Rightarrow> length rs < length (forest_nodes rest) \<and> raised_by_create_todo self e"
    unfolding todos_run_def by auto
  let ?all = "(req, u) # cs @ rs"
  have eq: "map without_parent cs = map (node_request group_id m) (forest_nodes (child_list x))"
    using cs(2) cs(4) by (intro prefix_same_length) simp_all
  have h: "history w' = history w @ map (\<lambda>c. TodoCreated (fst c) (snd c)) ?all"
    using hist cs(1) rs(1) by simp
  have p: "prefix (map without_parent ?all)
             (map (node_request group_id m) (forest_nodes (x # rest)))"
    using req eq rs(2) by (simp add: subtree_nodes_unfold)
  have k1: "parents_known (insert (Some u) {parent}) cs"
    using cs(3) by (rule parents_known_mono) simp
  have k2: "parents_known (insert (Some u) {parent} \<union> Some ` snd ` set cs) rs"
    using rs(3) by (rule parents_known_mono) simp
  have k: "parents_known {parent} ?all"
    using par k1 k2 by (simp add: parents_known_append)
  have r: "req = (node_request group_id m x)\<lparr>td_parent_id := parent\<rparr>"
    using req par by (cases req) (auto simp: without_parent_def node_request_def)
  have m: "created_as group_id m parent (x # rest) ?all" if "created_as group_id m parent rest rs"
    unfolding r using cs(6) that by (rule created_node)
  have l: "case r of
       Inr k \<Rightarrow> length ?all = length (forest_nodes (x # rest)) \<and> k = c + int (length ?all)
                \<and> created_as group_id m parent (x # rest) ?all
     | Inl e \<Rightarrow> length ?all < length (forest_nodes (x # rest)) \<and> raised_by_create_todo self e"
    using rs(4) cs(4) cs(5) m by (simp add: subtree_nodes_unfold split: sum.splits)
  show ?thesis unfolding todos_run_def
    using h p k l by (intro exI [of _ ?all]) simp
qed

lemma create_todos_run:
  "create_todos_recursive self todos group_id m parent w = (r, w')
     \<Longrightarrow> todos_run self todos group_id m parent 0 w r w'"
  "create_todos_loop self todos group_id m parent c w = (r, w')
     \<Longrightarrow> todos_run self todos group_id m parent c w r w'"
proof (induction self todos group_id m parent w and self todos group_id m parent c w
        arbitrary: r w' and r w' rule: create_todos_recursive_create_todos_loop.induct)
  case (1 self preset_todos group_id tag_name_to_id parent_id w)
  then show ?case by simp
next
  case (2 self group_id tag_name_to_id parent_id created_count w)
  then show ?case using todos_run_Nil by auto
next
  case (3 self t d tn ch rest group_id m parent c w)
  let ?x = "PresetTodo t d tn ch"
  let ?req = "\<lparr>td_title = t, td_description = d, td_tag_group_id = group_id,
               td_tag_ids = attached_tag_ids m tn, td_parent_id = parent\<rparr>"
  have ids: "todo_tag_ids m tn = Inr (attached_tag_ids m tn)" by (rule todo_tag_ids_total)
  obtain a w1 where call: "todo_service_create_todo self ?req w = (a, w1)"
    by (cases "todo_service_create_todo self ?req w")
  show ?case
  proof (cases a)
    case (Inl e)
    from todo_service_create_todo_cases [OF call] Inl
    have "history w1 = history w" "raised_by_create_todo self e" by auto
    moreover have "r = Inl e" "w' = w1" using "3.prems" ids call Inl by simp_all
    ultimately show ?thesis using todos_run_create_failed by simp
  next
    case (Inr u)
    from todo_service_create_todo_cases [OF call] Inr
    have hist: "history w1 = history w @ [TodoCreated ?req u]" by auto
    have req: "without_parent (?req, u) = node_request group_id m ?x"
      by (simp add: without_parent_def node_request_def)
    have par: "td_parent_id ?req = parent" by simp
    note IH = "3.IH" [OF ids call [symmetric] Inr]
    have run: "r = fst (create_todos_loop self (?x # rest) group_id m parent c w)"
              "w' = snd (create_todos_loop self (?x # rest) group_id m parent c w)"
      using "3.prems" by simp_all
    show ?thesis
    proof (cases "child_list ?x = []")
      case True
      have sub: "todos_run self (child_list ?x) group_id m (Some u) 0 w1 (Inr 0) w1"
        using True todos_run_Nil by simp
      have loop: "create_todos_loop self rest group_id m parent (c + 1) w1 = (r, w')"
        using "3.prems" ids call Inr True
        by (cases ch) (simp_all add: child_list_def)
      have "todos_run self rest group_id m parent (c + 1 + 0) w1 r w'"
      proof (cases ch)
        case None
        from IH(1) [OF None loop] show ?thesis by simp
      next
        case (Some cs)
        with True have "\<not> cs \<noteq> []" by (simp add: child_list_def)
        from IH(4) [OF Some this loop] show ?thesis by simp
      qed
      with hist req par sub show ?thesis by (rule todos_run_step)
    next
      case False
      then obtain cs where ch: "ch = Some cs" and ne: "cs \<noteq> []" and cl: "child_list ?x = cs"
        by (cases ch) (simp_all add: child_list_def)
      obtain a2 w2 where rec: "create_todos_recursive self cs group_id m (Some u) w1 = (a2, w2)"
        by (cases "create_todos_recursive self cs group_id m (Some u) w1")
      from IH(2) [OF ch ne rec]
      have sub: "todos_run self (child_list ?x) group_id m (Some u) 0 w1 a2 w2"
        using cl by simp
      show ?thesis
      proof (cases a2)
        case (Inl e)
        have "r = Inl e" "w' = w2" using "3.prems" ids call Inr ch ne rec Inl by simp_all
        moreover have "todos_run self (?x # rest) group_id m parent c w (Inl e) w2"
          using hist req par sub [unfolded Inl] by (rule todos_run_children_failed)
        ultimately show ?thesis by simp
      next
        case (Inr n)
        have loop: "create_todos_loop self rest group_id m parent (c + 1 + n) w2 = (r, w')"
          using "3.prems" ids call \<open>a = Inr u\<close> ch ne rec Inr by simp
        from IH(3) [OF ch ne rec [symmetric] Inr loop]
        have "todos_run self rest group_id m parent (c + 1 + n) w2 r w'" .
        with hist req par sub [unfolded Inr] show ?thesis by (rule todos_run_step)
      qed
    qed
  qed
qed

lemma todo_creations_map:
  "todo_creations (map (\<lambda>c. TodoCreated (fst c) (snd c)) cs) = cs"
  by (induction cs) simp_all

lemma new_events_append: "history w' = history w @ es \<Longrightarrow> new_events w w' = es"
  by (simp add: new_events_def)

lemma todos_run_created:
  assumes "todos_run self todos group_id m parent c w r w'"
  shows "todos_run self todos group_id m parent c w r w' \<and>
         history w' = history w @
           map (\<lambda>c. TodoCreated (fst c) (snd c)) (todo_creations (new_events w w'))"
proof -
  from assms obtain cs where
    "history w' = history w @ map (\<lambda>c. TodoCreated (fst c) (snd c)) cs"
    unfolding todos_run_def by blast
  then show ?thesis using assms
    by (simp add: new_events_append todo_creations_map)
qed

lemma create_todos_facts:
  assumes run: "create_todos_recursive self todos group_id m parent w = (r, w')"
  defines "cs \<equiv> todo_creations (new_events w w')"
  shows "history w' = history w @ map (\<lambda>c. TodoCreated (fst c) (snd c)) cs"
    and "prefix (map without_parent cs) (map (node_request group_id m) (forest_nodes todos))"
    and "parents_known {parent} cs"
    and "\<And>n. r = Inr n \<Longrightarrow> length cs = length (forest_nodes todos) \<and> n = int (length cs)
                   \<and> created_as group_id m parent todos cs"
    and "\<And>e. r = Inl e \<Longrightarrow> length cs < length (forest_nodes todos) \<and> raised_by_create_todo self e"
proof -
  from create_todos_run(1) [OF run] obtain ds where ds:
    "history w' = history w @ map (\<lambda>c. TodoCreated (fst c) (snd c)) ds"
    "prefix (map without_parent ds) (map (node_request group_id m) (forest_nodes todos))"
    "parents_known {parent} ds"
    "case r of
       Inr n \<Rightarrow> length ds = length (forest_nodes todos) \<and> n = 0 + int (length ds)
                \<and> created_as group_id m parent todos ds
     | Inl e \<Rightarrow> length ds < length (forest_nodes todos) \<and> raised_by_create_todo self e"
    unfolding todos_run_def by blast
  have eq: "cs = ds" unfolding cs_def using ds(1)
    by (simp add: new_events_append todo_creations_map)
  show "history w' = history w @ map (\<lambda>c. TodoCreated (fst c) (snd c)) cs"
    using ds(1) eq by simp
  show "prefix (map without_parent cs) (map (node_request group_id m) (forest_nodes todos))"
    using ds(2) eq by simp
  show "parents_known {parent} cs" using ds(3) eq by simp
  show "length cs = length (forest_nodes todos) \<and> n = int (length cs)
                   \<and> created_as group_id m parent todos cs" if "r = Inr n" for n
    using ds(4) eq that by simp
  show "length cs < length (forest_nodes todos) \<and> raised_by_create_todo self e" if "r = Inl e" for e
    using ds(4) eq that by simp
qed

lemma parents_known_nth:
  "parents_known A cs \<Longrightarrow> i < length cs \<Longrightarrow>
     td_parent_id (fst (cs ! i)) \<in> A \<or> (\<exists>j<i. td_parent_id (fst (cs ! i)) = Some (snd (cs ! j)))"
proof (induction cs arbitrary: A i)
  case Nil
  then show ?case by simp
next
  case (Cons c cs)
  show ?case
  proof (cases i)
    case 0
    then show ?thesis using Cons.prems by simp
  next
    case (Suc k)
    with Cons.prems have k: "k < length cs" and pk: "parents_known (insert (Some (snd c)) A) cs"
      by simp_all
    from Cons.IH [OF pk k] consider
        "td_parent_id (fst (cs ! k)) = Some (snd c)"
      | "td_parent_id (fst (cs ! k)) \<in> A"
      | j where "j < k" "td_parent_id (fst (cs ! k)) = Some (snd (cs ! j))"
      by auto
    then show ?thesis
    proof cases
      case 1
      then have "td_parent_id (fst ((c # cs) ! i)) = Some (snd ((c # cs) ! 0))" using Suc by simp
      then show ?thesis using Suc by blast
    next
      case 2
      then show ?thesis using Suc by simp
    next
      case 3
      then have "Suc j < i" "td_parent_id (fst ((c # cs) ! i)) = Some (snd ((c # cs) ! Suc j))"
        using Suc by simp_all
      then show ?thesis by blast
    qed
  qed
qed

lemma prefix_map_nth:
  assumes "prefix (map f xs) (map g ys)" and "i < length xs"
  shows "i < length ys \<and> f (xs ! i) = g (ys ! i)"
proof -
  from assms(1) obtain zs where zs: "map g ys = map f xs @ zs" by (auto simp: prefix_def)
  then have "length ys = length xs + length zs" by (metis length_append length_map)
  with assms(2) have i: "i < length ys" by simp
  have "g (ys ! i) = (map g ys) ! i" using i by simp
  also have "\<dots> = (map f xs @ zs) ! i" using zs by simp
  also have "\<dots> = f (xs ! i)" using assms(2) by (simp add: nth_append)
  finally show ?thesis using i by simp
qed

lemma created_request:
  assumes run: "create_todos_recursive self todos group_id m parent w = (r, w')"
    and i: "i < length (todo_creations (new_events w w'))"
  shows "i < length (forest_nodes todos)"
    and "td_title (fst (todo_creations (new_events w w') ! i)) = title (forest_nodes todos ! i)"
    and "td_description (fst (todo_creations (new_events w w') ! i)) =
           description (forest_nodes todos ! i)"
    and "td_tag_group_id (fst (todo_creations (new_events w w') ! i)) = group_id"
    and "td_tag_ids (fst (todo_creations (new_events w w') ! i)) =
           attached_tag_ids m (tag_names (forest_nodes todos ! i))"
proof -
  let ?cs = "todo_creations (new_events w w')"
  from prefix_map_nth [OF create_todos_facts(2) [OF run] i]
  have n: "i < length (forest_nodes todos)"
    and eq: "without_parent (?cs ! i) = node_request group_id m (forest_nodes todos ! i)"
    by simp_all
  show "i < length (forest_nodes todos)" by (rule n)
  from eq have e: "(fst (?cs ! i))\<lparr>td_parent_id := None\<rparr> =
      node_request group_id m (forest_nodes todos ! i)"
    by (simp add: without_parent_def)
  from arg_cong [OF e, of td_title]
  show "td_title (fst (?cs ! i)) = title (forest_nodes todos ! i)"
    by (simp add: node_request_def)
  from arg_cong [OF e, of td_description]
  show "td_description (fst (?cs ! i)) = description (forest_nodes todos ! i)"
    by (simp add: node_request_def)
  from arg_cong [OF e, of td_tag_group_id]
  show "td_tag_group_id (fst (?cs ! i)) = group_id"
    by (simp add: node_request_def)
  from arg_cong [OF e, of td_tag_ids]
  show "td_tag_ids (fst (?cs ! i)) = attached_tag_ids m (tag_names (forest_nodes todos ! i))"
    by (simp add: node_request_def)
qed

lemma never_raises_todo:
  "never_raises self \<Longrightarrow> \<not> raised_by_create_todo self e"
  unfolding never_raises_def raised_by_create_todo_def
  by (metis sum.distinct(1))

lemma create_todos_returns:
  assumes "never_raises self"
  shows "\<exists>w'. create_todos_recursive self todos group_id m parent w =
               (Inr (count_todos_recursive todos), w')"
proof -
  obtain r w' where run: "create_todos_recursive self todos group_id m parent w = (r, w')"
    by (cases "create_todos_recursive self todos group_id m parent w")
  show ?thesis
  proof (cases r)
    case (Inl e)
    from create_todos_facts(5) [OF run Inl] never_raises_todo [OF assms]
    show ?thesis by simp
  next
    case (Inr n)
    from create_todos_facts(4) [OF run Inr]
    have "n = count_todos_recursive todos" by (simp only: count_todos_nodes(1))
    with run Inr show ?thesis by simp
  qed
qed


subsection \<open>What the todo loop creates\<close>

lemma example_todos_run:
  "create_todos_recursive counter_service (p_todos project_preset) (UUID ''g'')
     example_tag_ids None empty_world = (Inr 4, example_todos_world)"
  by (simp add: project_preset_def todo_tag_ids_def dict_getitem_def
        todo_service_create_todo_def counter_service_def row_id_def empty_world_def
        example_tag_ids_def example_todos_world_def)

lemma example_todos_created:
  "todo_creations (new_events empty_world example_todos_world) =
     [(\<lparr>td_title = ''Plan'', td_description = None, td_tag_group_id = UUID ''g'',
        td_tag_ids = Some [UUID ''o'', UUID ''d''], td_parent_id = None\<rparr>, UUID ''row''),
      (\<lparr>td_title = ''Draft'', td_description = None, td_tag_group_id = UUID ''g'',
        td_tag_ids = Some [], td_parent_id = Some (UUID ''row'')\<rparr>, UUID ''row+''),
      (\<lparr>td_title = ''Review'', td_description = None, td_tag_group_id = UUID ''g'',
        td_tag_ids = None, td_parent_id = Some (UUID ''row'')\<rparr>, UUID ''row++''),
      (\<lparr>td_title = ''Ship'', td_description = None, td_tag_group_id = UUID ''g'',
        td_tag_ids = None, td_parent_id = None\<rparr>, UUID ''row+++'')]"
  by (simp add: new_events_def empty_world_def example_todos_world_def)

lemma example_forest_nodes:
  "forest_nodes (p_todos project_preset) =
     [PresetTodo ''Plan'' None (Some [''Ops'', ''Ghost'', ''Dev''])
        (Some [PresetTodo ''Draft'' None (Some [''Ghost'']) None,
               PresetTodo ''Review'' None (Some []) (Some [])]),
      PresetTodo ''Draft'' None (Some [''Ghost'']) None,
      PresetTodo ''Review'' None (Some []) (Some []),
      PresetTodo ''Ship'' None None None]"
  by (simp add: project_preset_def)

lemma counter_service_never_raises: "never_raises counter_service"
  by (simp add: never_raises_def counter_service_def)

text \<open>
  Claim C5. In a run of \<open>_create_todos_recursive\<close> started at the root level (parent
  \<open>None\<close>), whether it returns or stops at an exception, the run adds todo creations and
  nothing else; the parent reference of every created todo is \<open>None\<close> or the identifier
  of a todo created strictly earlier in the same run, never a later one; the todos are
  created in document order, a node before the nodes below it and siblings in the order
  of their list; and a run that returns has created the forest as \<open>created_as\<close> says:
  the children of a node right after it, under the identifier generated for it.
\<close>

theorem create_todos_no_forward_reference:
  assumes run: "create_todos_recursive self todos group_id m None w = (r, w')"
  defines "cs \<equiv> todo_creations (new_events w w')"
  shows "history w' = history w @ map (\<lambda>c. TodoCreated (fst c) (snd c)) cs
       \<and> (\<forall>i<length cs. td_parent_id (fst (cs ! i)) = None
             \<or> (\<exists>j<i. td_parent_id (fst (cs ! i)) = Some (snd (cs ! j))))
       \<and> (\<forall>i<length cs. i < length (forest_nodes todos)
             \<and> td_title (fst (cs ! i)) = title (forest_nodes todos ! i)
             \<and> td_description (fst (cs ! i)) = description (forest_nodes todos ! i))
       \<and> (\<forall>n. r = Inr n \<longrightarrow> created_as group_id m None todos cs)"
proof (intro conjI allI impI)
  show "history w' = history w @ map (\<lambda>c. TodoCreated (fst c) (snd c)) cs"
    unfolding cs_def by (rule create_todos_facts(1) [OF run])
next
  fix i assume i: "i < length cs"
  have "parents_known {None} cs" unfolding cs_def by (rule create_todos_facts(3) [OF run])
  from parents_known_nth [OF this i]
  show "td_parent_id (fst (cs ! i)) = None
          \<or> (\<exists>j<i. td_parent_id (fst (cs ! i)) = Some (snd (cs ! j)))"
    by simp
next
  fix i assume i: "i < length cs"
  then have i': "i < length (todo_creations (new_events w w'))" by (simp add: cs_def)
  show "i < length (forest_nodes todos)" by (rule created_request(1) [OF run i'])
  show "td_title (fst (cs ! i)) = title (forest_nodes todos ! i)"
    unfolding cs_def by (rule created_request(2) [OF run i'])
  show "td_description (fst (cs ! i)) = description (forest_nodes todos ! i)"
    unfolding cs_def by (rule created_request(3) [OF run i'])
next
  fix n assume "r = Inr n"
  from create_todos_facts(4) [OF run this]
  show "created_as group_id m None todos cs" by (simp add: cs_def)
qed

text \<open>
  The run on the todos of \<open>project_preset\<close>: ``Draft'', created second, refers to
  ``Plan'', created first.
\<close>

theorem create_todos_no_forward_reference_witness:
  "create_todos_recursive counter_service (p_todos project_preset) (UUID ''g'')
     example_tag_ids None empty_world = (Inr 4, example_todos_world)
   \<and> length (todo_creations (new_events empty_world example_todos_world)) = 4
   \<and> td_parent_id (fst (todo_creations (new_events empty_world example_todos_world) ! 0)) = None
   \<and> td_parent_id (fst (todo_creations (new_events empty_world example_todos_world) ! 2))
        = Some (snd (todo_creations (new_events empty_world example_todos_world) ! 0))
   \<and> td_parent_id (fst (todo_creations (new_events empty_world example_todos_world) ! 3)) = None
   \<and> created_as (UUID ''g'') example_tag_ids None (p_todos project_preset)
        (todo_creations (new_events empty_world example_todos_world))
   \<and> td_parent_id (fst (todo_creations (new_events empty_world example_todos_world) ! 1))
        = Some (snd (todo_creations (new_events empty_world example_todos_world) ! 0))"
  using create_todos_no_forward_reference [OF example_todos_run] example_todos_run
  by (simp add: example_todos_created)

text \<open>
  Claim C6. Whenever \<open>_create_todos_recursive\<close> returns, the number it returns is
  \<open>_count_todos_recursive\<close> of the same forest; and it does return, with that number,
  when the persistence layer raises nothing.
\<close>

theorem create_todos_count_matches:
  "(\<forall>n w'. create_todos_recursive self todos group_id m parent w = (Inr n, w')
       \<longrightarrow> n = count_todos_recursive todos)
   \<and> (never_raises self \<longrightarrow>
        (\<exists>w'. create_todos_recursive self todos group_id m parent w =
                 (Inr (count_todos_recursive todos), w')))"
proof (intro conjI allI impI)
  fix n w' assume run: "create_todos_recursive self todos group_id m parent w = (Inr n, w')"
  from create_todos_facts(4) [OF run refl]
  show "n = count_todos_recursive todos" by (simp only: count_todos_nodes(1))
next
  assume "never_raises self"
  then show "\<exists>w'. create_todos_recursive self todos group_id m parent w =
                 (Inr (count_todos_recursive todos), w')"
    by (rule create_todos_returns)
qed

theorem create_todos_count_matches_witness:
  "never_raises counter_service
   \<and> create_todos_recursive counter_service (p_todos project_preset) (UUID ''g'')
       example_tag_ids None empty_world = (Inr 4, example_todos_world)
   \<and> count_todos_recursive (p_todos project_preset) = 4"
  using create_todos_count_matches [of counter_service "p_todos project_preset" "UUID ''g''"
          example_tag_ids None empty_world]
        example_todos_run counter_service_never_raises
  by simp

text \<open>
  Claim C8. For a todo node with a non-empty \<open>tag_names\<close>, the comprehension raises
  nothing and yields the identifiers of the names that the dictionary knows, in the order
  of the list, the unknown names left out; these are the tag identifiers the todo is
  created with; and an exception that ends the run comes from the todo service, not from
  the names.
\<close>

theorem unresolved_tag_names_omitted:
  assumes run: "create_todos_recursive self todos group_id m parent w = (r, w')"
    and i: "i < length (todo_creations (new_events w w'))"
    and names: "tag_names (forest_nodes todos ! i) = Some names" "names \<noteq> []"
  shows "tag_ids_comprehension m names =
           Inr (map (\<lambda>n. the (m n)) (filter (\<lambda>n. m n \<noteq> None) names))
       \<and> td_tag_ids (fst (todo_creations (new_events w w') ! i)) =
           Some (map (\<lambda>n. the (m n)) (filter (\<lambda>n. m n \<noteq> None) names))
       \<and> (\<forall>e. r = Inl e \<longrightarrow> raised_by_create_todo self e)"
proof (intro conjI allI impI)
  show "tag_ids_comprehension m names =
           Inr (map (\<lambda>n. the (m n)) (filter (\<lambda>n. m n \<noteq> None) names))"
    by (rule comprehension_total)
  show "td_tag_ids (fst (todo_creations (new_events w w') ! i)) =
           Some (map (\<lambda>n. the (m n)) (filter (\<lambda>n. m n \<noteq> None) names))"
    using created_request(5) [OF run i] names by (simp add: attached_tag_ids_def)
next
  fix e assume "r = Inl e"
  from create_todos_facts(5) [OF run this] show "raised_by_create_todo self e" by simp
qed

text \<open>
  ``Plan'' names ``Ops'', ``Ghost'' and ``Dev''; no tag is called ``Ghost''.
\<close>

theorem unresolved_tag_names_omitted_witness:
  "create_todos_recursive counter_service (p_todos project_preset) (UUID ''g'')
     example_tag_ids None empty_world = (Inr 4, example_todos_world)
   \<and> 0 < length (todo_creations (new_events empty_world example_todos_world))
   \<and> tag_names (forest_nodes (p_todos project_preset) ! 0) = Some [''Ops'', ''Ghost'', ''Dev'']
   \<and> example_tag_ids ''Ghost'' = None
   \<and> tag_ids_comprehension example_tag_ids [''Ops'', ''Ghost'', ''Dev''] =
       Inr [UUID ''o'', UUID ''d'']
   \<and> td_tag_ids (fst (todo_creations (new_events empty_world example_todos_world) ! 0)) =
       Some [UUID ''o'', UUID ''d'']"
proof -
  have i: "0 < length (todo_creations (new_events empty_world example_todos_world))"
    by (simp add: example_todos_created)
  have n: "tag_names (forest_nodes (p_todos project_preset) ! 0) = Some [''Ops'', ''Ghost'', ''Dev'']"
    by (simp add: example_forest_nodes)
  have ne: "[''Ops'', ''Ghost'', ''Dev''] \<noteq> []" by simp
  from unresolved_tag_names_omitted [OF example_todos_run i n ne] example_todos_run i n
  show ?thesis by (simp add: example_tag_ids_def)
qed

text \<open>
  Claim C10. A todo whose \<open>tag_names\<close> is \<open>None\<close> or empty is created with \<open>tag_ids\<close>
  \<open>None\<close>; a todo whose \<open>tag_names\<close> is not empty but holds unknown names only is
  created with \<open>tag_ids\<close> the empty list.
\<close>

theorem tag_ids_none_versus_empty:
  assumes run: "create_todos_recursive self todos group_id m parent w = (r, w')"
    and i: "i < length (todo_creations (new_events w w'))"
  shows "(tag_names (forest_nodes todos ! i) = None \<or> tag_names (forest_nodes todos ! i) = Some []
            \<longrightarrow> td_tag_ids (fst (todo_creations (new_events w w') ! i)) = None)
       \<and> (\<forall>names. tag_names (forest_nodes todos ! i) = Some names \<and> names \<noteq> []
                    \<and> (\<forall>n\<in>set names. m n = None)
            \<longrightarrow> td_tag_ids (fst (todo_creations (new_events w w') ! i)) = Some [])
       \<and> todo_tag_ids m None = Inr None
       \<and> todo_tag_ids m (Some []) = Inr None
       \<and> (\<forall>names. names \<noteq> [] \<and> (\<forall>n\<in>set names. m n = None)
            \<longrightarrow> todo_tag_ids m (Some names) = Inr (Some []))"
proof -
  have empty: "filter (\<lambda>n. m n \<noteq> None) names = []" if "\<forall>n\<in>set names. m n = None" for names
    using that by (simp add: filter_empty_conv)
  note ids = created_request(5) [OF run i]
  show ?thesis
  proof (intro conjI allI impI)
    assume "tag_names (forest_nodes todos ! i) = None \<or> tag_names (forest_nodes todos ! i) = Some []"
    then show "td_tag_ids (fst (todo_creations (new_events w w') ! i)) = None"
      using ids by (auto simp: attached_tag_ids_def)
  next
    fix names
    assume "tag_names (forest_nodes todos ! i) = Some names \<and> names \<noteq> []
              \<and> (\<forall>n\<in>set names. m n = None)"
    then show "td_tag_ids (fst (todo_creations (new_events w w') ! i)) = Some []"
      using ids empty [of names] by (simp add: attached_tag_ids_def)
  next
    show "todo_tag_ids m None = Inr None" by (simp add: todo_tag_ids_def)
    show "todo_tag_ids m (Some []) = Inr None" by (simp add: todo_tag_ids_def)
  next
    fix names assume "names \<noteq> [] \<and> (\<forall>n\<in>set names. m n = None)"
    then show "todo_tag_ids m (Some names) = Inr (Some [])"
      using empty [of names] by (simp add: todo_tag_ids_total attached_tag_ids_def)
  qed
qed

text \<open>
  ``Draft'' names only ``Ghost''; ``Review'' has an empty list of names; ``Ship'' has none.
\<close>

theorem tag_ids_none_versus_empty_witness:
  "create_todos_recursive counter_service (p_todos project_preset) (UUID ''g'')
     example_tag_ids None empty_world = (Inr 4, example_todos_world)
   \<and> tag_names (forest_nodes (p_todos project_preset) ! 1) = Some [''Ghost'']
   \<and> example_tag_ids ''Ghost'' = None
   \<and> td_tag_ids (fst (todo_creations (new_events empty_world example_todos_world) ! 1)) = Some []
   \<and> tag_names (forest_nodes (p_todos project_preset) ! 2) = Some []
   \<and> td_tag_ids (fst (todo_creations (new_events empty_world example_todos_world) ! 2)) = None
   \<and> tag_names (forest_nodes (p_todos project_preset) ! 3) = None
   \<and> td_tag_ids (fst (todo_creations (new_events empty_world example_todos_world) ! 3)) = None
   \<and> todo_tag_ids example_tag_ids (Some [''Ghost'']) = Inr (Some [])"
proof -
  have i1: "1 < length (todo_creations (new_events empty_world example_todos_world))"
    and i2: "2 < length (todo_creations (new_events empty_world example_todos_world))"
    and i3: "3 < length (todo_creations (new_events empty_world example_todos_world))"
    by (simp_all add: example_todos_created)
  have g: "\<forall>n\<in>set [''Ghost'']. example_tag_ids n = None" by (simp add: example_tag_ids_def)
  from tag_ids_none_versus_empty [OF example_todos_run i1]
       tag_ids_none_versus_empty [OF example_todos_run i2]
       tag_ids_none_versus_empty [OF example_todos_run i3]
       example_todos_run g
  show ?thesis by (simp add: example_forest_nodes)
qed

subsection \<open>The tag loop\<close>

lemma tag_creations_map:
  "tag_creations (map (\<lambda>c. TagCreated (fst c) (snd c)) cs) = cs"
  by (induction cs) simp_all

lemma tag_service_create_tag_cases:
  assumes "tag_service_create_tag self req w = (r, w')"
  shows "(\<exists>u. r = Inr u \<and> history w' = history w @ [TagCreated req u])
       \<or> (\<exists>e. r = Inl e \<and> history w' = history w \<and> raised_by_create_tag self e)"
proof (cases "create_tag self req (db w)")
  case (Pair a s)
  show ?thesis
  proof (cases a)
    case (Inl e)
    have "fst (create_tag self req (db w)) = Inl e" using Pair Inl by simp
    then have "raised_by_create_tag self e" unfolding raised_by_create_tag_def by blast
    then show ?thesis using assms Pair Inl by (auto simp: tag_service_create_tag_def)
  next
    case (Inr u)
    then show ?thesis using assms Pair by (auto simp: tag_service_create_tag_def)
  qed
qed

lemma create_tags_run:
  "create_tags_loop self tags group_id m0 w = (r, w') \<Longrightarrow> tags_run self tags group_id m0 w r w'"
proof (induction tags arbitrary: m0 w)
  case Nil
  then show ?case unfolding tags_run_def by (intro exI [of _ "[]"]) auto
next
  case (Cons t rest)
  let ?req = "tag_request group_id t"
  obtain a w1 where call: "tag_service_create_tag self ?req w = (a, w1)"
    by (cases "tag_service_create_tag self ?req w")
  show ?case
  proof (cases a)
    case (Inl e)
    from tag_service_create_tag_cases [OF call] Inl
    have "history w1 = history w" "raised_by_create_tag self e" by auto
    moreover have "r = Inl e" "w' = w1"
      using Cons.prems call Inl by (simp_all add: tag_request_def)
    ultimately show ?thesis unfolding tags_run_def by (intro exI [of _ "[]"]) simp
  next
    case (Inr u)
    from tag_service_create_tag_cases [OF call] Inr
    have hist: "history w1 = history w @ [TagCreated ?req u]" by auto
    have "create_tags_loop self rest group_id (m0(tag_name t \<mapsto> u)) w1 = (r, w')"
      using Cons.prems call Inr by (simp add: tag_request_def)
    from Cons.IH [OF this] obtain cs where cs:
      "history w' = history w1 @ map (\<lambda>c. TagCreated (fst c) (snd c)) cs"
      "prefix (map fst cs) (map (tag_request group_id) rest)"
      "case r of
         Inr m \<Rightarrow> length cs = length rest
                  \<and> m = m0(tag_name t \<mapsto> u) ++ map_of (rev (zip (map tag_name rest) (map snd cs)))
       | Inl e \<Rightarrow> length cs < length rest \<and> raised_by_create_tag self e"
      unfolding tags_run_def by blast
    let ?all = "(?req, u) # cs"
    have h: "history w' = history w @ map (\<lambda>c. TagCreated (fst c) (snd c)) ?all"
      using hist cs(1) by simp
    have p: "prefix (map fst ?all) (map (tag_request group_id) (t # rest))"
      using cs(2) by simp
    have upd: "m0(tag_name t \<mapsto> u) ++ map_of (rev zs) =
                 m0 ++ map_of (rev ((tag_name t, u) # zs))" for zs
      by (rule ext) (simp add: map_add_def split: option.splits)
    have l: "case r of
         Inr m \<Rightarrow> length ?all = length (t # rest)
                  \<and> m = m0 ++ map_of (rev (zip (map tag_name (t # rest)) (map snd ?all)))
       | Inl e \<Rightarrow> length ?all < length (t # rest) \<and> raised_by_create_tag self e"
    proof (cases r)
      case (Inl e)
      then show ?thesis using cs(3) by simp
    next
      case (Inr m)
      with cs(3) have "length cs = length rest"
        and "m = m0(tag_name t \<mapsto> u) ++ map_of (rev (zip (map tag_name rest) (map snd cs)))"
        by simp_all
      then have "length ?all = length (t # rest)"
        and "m = m0 ++ map_of (rev ((tag_name t, u) # zip (map tag_name rest) (map snd cs)))"
        by (simp_all only: upd list.size)
      then show ?thesis using Inr by simp
    qed
    show ?thesis unfolding tags_run_def using h p l by (intro exI [of _ ?all]) simp
  qed
qed


lemma create_tags_facts:
  assumes run: "create_tags_loop self tags group_id m0 w = (r, w')"
  defines "cs \<equiv> tag_creations (new_events w w')"
  shows "history w' = history w @ map (\<lambda>c. TagCreated (fst c) (snd c)) cs"
    and "prefix (map fst cs) (map (tag_request group_id) tags)"
    and "\<And>m. r = Inr m \<Longrightarrow> length cs = length tags
            \<and> m = m0 ++ map_of (rev (zip (map tag_name tags) (map snd cs)))"
    and "\<And>e. r = Inl e \<Longrightarrow> length cs < length tags \<and> raised_by_create_tag self e"
proof -
  from create_tags_run [OF run] obtain ds where ds:
    "history w' = history w @ map (\<lambda>c. TagCreated (fst c) (snd c)) ds"
    "prefix (map fst ds) (map (tag_request group_id) tags)"
    "case r of
       Inr m \<Rightarrow> length ds = length tags
                \<and> m = m0 ++ map_of (rev (zip (map tag_name tags) (map snd ds)))
     | Inl e \<Rightarrow> length ds < length tags \<and> raised_by_create_tag self e"
    unfolding tags_run_def by blast
  have eq: "cs = ds" unfolding cs_def using ds(1)
    by (simp add: new_events_append tag_creations_map)
  show "history w' = history w @ map (\<lambda>c. TagCreated (fst c) (snd c)) cs"
    using ds(1) eq by simp
  show "prefix (map fst cs) (map (tag_request group_id) tags)" using ds(2) eq by simp
  show "length cs = length tags
            \<and> m = m0 ++ map_of (rev (zip (map tag_name tags) (map snd cs)))" if "r = Inr m" for m
    using ds(3) eq that by simp
  show "length cs < length tags \<and> raised_by_create_tag self e" if "r = Inl e" for e
    using ds(3) eq that by simp
qed





subsection \<open>Initialisation from a preset\<close>


lemma get_preset_cases:
  "get_preset env name =
     (case stat_error env (get_preset_path env name) of
        Some e \<Rightarrow> Inl e
      | None \<Rightarrow>
          if path_exists env (get_preset_path env name)
          then load_preset_file env (get_preset_path env name)
          else Inl (PresetNotFoundError name))"
  by (simp add: get_preset_def Path_exists_def Let_def split: option.splits)



lemma tag_service_create_tag_group_cases:
  assumes "tag_service_create_tag_group self req w = (r, w')"
  shows "(\<exists>u. r = Inr u \<and> history w' = history w @ [TagGroupCreated req u]
              \<and> fst (create_tag_group self req (db w)) = Inr u)
       \<or> (\<exists>e. r = Inl e \<and> history w' = history w)"
  using assms
  by (cases "create_tag_group self req (db w)")
     (auto simp: tag_service_create_tag_group_def split: sum.splits)

lemma initialize_steps:
  assumes gp: "get_preset env name = Inr preset"
    and init: "initialize_from_preset self env name w = (Inr res, w')"
  obtains gid w1 m w2 n where
    "tag_service_create_tag_group self (tag_group_request preset) w = (Inr gid, w1)"
    "create_tags_loop self (p_tags preset) gid Map.empty w1 = (Inr m, w2)"
    "create_todos_recursive self (p_todos preset) gid m None w2 = (Inr n, w')"
    "res = \<lparr>preset_name = name, tag_group_id = str gid,
            tags_created = int (length (p_tags preset)), todos_created = n\<rparr>"
  using init gp
  by (auto simp: initialize_from_preset_def tag_group_request_def
           simp del: create_todos_recursive.simps
           split: sum.splits prod.splits)

lemma initialize_shape:
  assumes gp: "get_preset env name = Inr preset"
    and init: "initialize_from_preset self env name w = (Inr res, w')"
  shows "\<exists>gid tcs dcs.
           history w' = history w @ new_events w w'
         \<and> new_events w w' =
             TagGroupCreated (tag_group_request preset) gid
               # map (\<lambda>c. TagCreated (fst c) (snd c)) tcs
               @ map (\<lambda>c. TodoCreated (fst c) (snd c)) dcs
         \<and> length tcs = length (p_tags preset)
         \<and> int (length dcs) = count_todos_recursive (p_todos preset)
         \<and> res = \<lparr>preset_name = name, tag_group_id = str gid,
                   tags_created = int (length (p_tags preset)),
                   todos_created = count_todos_recursive (p_todos preset)\<rparr>"
proof -
  from gp init obtain gid w1 m w2 n where
    g: "tag_service_create_tag_group self (tag_group_request preset) w = (Inr gid, w1)" and
    t: "create_tags_loop self (p_tags preset) gid Map.empty w1 = (Inr m, w2)" and
    d: "create_todos_recursive self (p_todos preset) gid m None w2 = (Inr n, w')" and
    res: "res = \<lparr>preset_name = name, tag_group_id = str gid,
                 tags_created = int (length (p_tags preset)), todos_created = n\<rparr>"
    by (rule initialize_steps)
  let ?tcs = "tag_creations (new_events w1 w2)"
  let ?dcs = "todo_creations (new_events w2 w')"
  from tag_service_create_tag_group_cases [OF g]
  have h1: "history w1 = history w @ [TagGroupCreated (tag_group_request preset) gid]" by simp
  have h2: "history w2 = history w1 @ map (\<lambda>c. TagCreated (fst c) (snd c)) ?tcs"
    by (rule create_tags_facts(1) [OF t])
  have h3: "history w' = history w2 @ map (\<lambda>c. TodoCreated (fst c) (snd c)) ?dcs"
    by (rule create_todos_facts(1) [OF d])
  have lt: "length ?tcs = length (p_tags preset)"
    using create_tags_facts(3) [OF t refl] by simp
  from create_todos_facts(4) [OF d refl]
  have ld: "int (length ?dcs) = count_todos_recursive (p_todos preset)"
    and n: "n = count_todos_recursive (p_todos preset)"
    by (simp_all only: count_todos_nodes(1))
  have all: "history w' = history w @
      (TagGroupCreated (tag_group_request preset) gid
         # map (\<lambda>c. TagCreated (fst c) (snd c)) ?tcs
         @ map (\<lambda>c. TodoCreated (fst c) (snd c)) ?dcs)"
    using h1 h2 h3 by simp
  then have ev: "new_events w w' =
      TagGroupCreated (tag_group_request preset) gid
         # map (\<lambda>c. TagCreated (fst c) (snd c)) ?tcs
         @ map (\<lambda>c. TodoCreated (fst c) (snd c)) ?dcs"
    by (rule new_events_append)
  have "history w' = history w @ new_events w w'" using all ev by simp
  with ev lt ld res n show ?thesis by blast
qed

lemma never_raises_tag: "never_raises self \<Longrightarrow> \<not> raised_by_create_tag self e"
  unfolding never_raises_def raised_by_create_tag_def by (metis sum.distinct(1))

lemma initialize_returns:
  assumes gp: "get_preset env name = Inr preset" and nr: "never_raises self"
  shows "\<exists>res w'. initialize_from_preset self env name w = (Inr res, w')
                 \<and> preset_name res = name"
proof -
  let ?req = "tag_group_request preset"
  obtain u s where cg: "create_tag_group self ?req (db w) = (Inr u, s)"
    using nr unfolding never_raises_def by (metis prod.collapse)
  then obtain w1 where g: "tag_service_create_tag_group self ?req w = (Inr u, w1)"
    by (simp add: tag_service_create_tag_group_def)
  obtain a w2 where t: "create_tags_loop self (p_tags preset) u Map.empty w1 = (a, w2)"
    by (cases "create_tags_loop self (p_tags preset) u Map.empty w1")
  have "\<exists>m. a = Inr m"
  proof (cases a)
    case (Inl e)
    from create_tags_facts(4) [OF t Inl] never_raises_tag [OF nr] show ?thesis by simp
  next
    case (Inr m)
    then show ?thesis by simp
  qed
  then obtain m where a: "a = Inr m" by blast
  from create_todos_returns [OF nr]
  obtain w' where d: "create_todos_recursive self (p_todos preset) u m None w2 =
      (Inr (count_todos_recursive (p_todos preset)), w')" by blast
  show ?thesis
    using gp g [unfolded tag_group_request_def] t a d
    by (simp add: initialize_from_preset_def del: create_todos_recursive.simps)
qed


lemma example_get_work: "get_preset example_env ''work'' = Inr project_preset"
  by (simp add: get_preset_cases get_preset_path_def load_preset_file_def example_env_def)

lemma example_work_run:
  "initialize_from_preset counter_service example_env ''work'' empty_world =
     (Inr \<lparr>preset_name = ''work'', tag_group_id = ''row'', tags_created = 3,
           todos_created = 4\<rparr>, example_work_world)"
  by (simp add: initialize_from_preset_def example_get_work project_preset_def
        tag_service_create_tag_group_def tag_service_create_tag_def
        todo_tag_ids_def dict_getitem_def todo_service_create_todo_def
        counter_service_def row_id_def empty_world_def example_work_world_def)


text \<open>
  Claim C9. The \<open>preset_name\<close> of the result is the name the call was given, whatever the
  \<open>name\<close> field of the loaded document says.
\<close>

theorem result_preset_name_is_argument:
  "(\<forall>res w'. initialize_from_preset self env name w = (Inr res, w') \<longrightarrow> preset_name res = name)
   \<and> (\<forall>preset. get_preset env name = Inr preset \<and> never_raises self \<longrightarrow>
         (\<exists>res w'. initialize_from_preset self env name w = (Inr res, w')
                    \<and> preset_name res = name))"
proof (intro conjI allI impI)
  fix res w' assume init: "initialize_from_preset self env name w = (Inr res, w')"
  show "preset_name res = name"
  proof (cases "get_preset env name")
    case (Inl e)
    with init show ?thesis by (simp add: initialize_from_preset_def)
  next
    case (Inr preset)
    from initialize_shape [OF Inr init] show ?thesis by auto
  qed
next
  fix preset assume "get_preset env name = Inr preset \<and> never_raises self"
  then show "\<exists>res w'. initialize_from_preset self env name w = (Inr res, w')
                    \<and> preset_name res = name"
    using initialize_returns by blast
qed

text \<open>The document \<open>work.json\<close> calls itself ``project''; the result says ``work''.\<close>

theorem result_preset_name_is_argument_witness:
  "get_preset example_env ''work'' = Inr project_preset
   \<and> never_raises counter_service
   \<and> p_name project_preset = ''project''
   \<and> initialize_from_preset counter_service example_env ''work'' empty_world =
       (Inr \<lparr>preset_name = ''work'', tag_group_id = ''row'', tags_created = 3,
             todos_created = 4\<rparr>, example_work_world)
   \<and> preset_name \<lparr>preset_name = ''work'', tag_group_id = ''row'', tags_created = 3,
                   todos_created = 4\<rparr> = ''work''"
  using result_preset_name_is_argument [of counter_service example_env "''work''" empty_world]
        example_get_work example_work_run counter_service_never_raises
  by (simp add: project_preset_def)


subsection \<open>Loading and listing presets\<close>






lemma list_presets_loop_caught:
  "(\<forall>f\<in>set files. \<forall>e. load_preset_file env f = Inl e \<longrightarrow> caught_by_list_presets e)
     \<Longrightarrow> list_presets_loop env files presets = Inr (presets @ loadable_infos env files)"
proof (induction files arbitrary: presets)
  case Nil
  then show ?case by (simp add: loadable_infos_def)
next
  case (Cons f files)
  then have IH: "list_presets_loop env files ps = Inr (ps @ loadable_infos env files)" for ps
    by simp
  show ?case
  proof (cases "load_preset_file env f")
    case (Inl e)
    with Cons.prems have "caught_by_list_presets e" by simp
    with Inl IH show ?thesis by (simp add: loadable_infos_def)
  next
    case (Inr preset)
    with IH show ?thesis
      by (simp add: loadable_infos_def preset_info_def count_todos_nodes(1)
               del: count_todos_recursive.simps)
  qed
qed

lemma list_presets_loop_raises:
  "list_presets_loop env files presets = Inl e
     \<Longrightarrow> \<not> caught_by_list_presets e \<and> (\<exists>f\<in>set files. load_preset_file env f = Inl e)"
proof (induction files arbitrary: presets)
  case Nil
  then show ?case by simp
next
  case (Cons f files)
  show ?case
  proof (cases "load_preset_file env f")
    case (Inl e')
    show ?thesis
    proof (cases "caught_by_list_presets e'")
      case True
      with Cons.prems Inl have "list_presets_loop env files presets = Inl e" by simp
      from Cons.IH [OF this] show ?thesis by simp
    next
      case False
      with Cons.prems Inl have "e' = e" by simp
      with False Inl show ?thesis by simp
    qed
  next
    case (Inr preset)
    with Cons.prems obtain ps where "list_presets_loop env files ps = Inl e"
      by (simp del: count_todos_recursive.simps)
    from Cons.IH [OF this] show ?thesis by simp
  qed
qed

text \<open>
  Claim C3, as stated, fails: \<open>list_presets\<close> does raise. In a directory with a file that
  cannot be opened, the \<open>OSError\<close> of \<open>open\<close> is not among the exceptions the loop
  catches.
\<close>

theorem list_presets_raises_counterexample:
  "list_presets locked_env = Inl (OtherException ''PermissionError'')"
  by (simp add: list_presets_def locked_env_def example_env_def load_preset_file_def)

text \<open>
  Claim C3, amended. \<open>list_presets\<close> returns the empty list when the preset directory
  does not exist. When the directory exists and every file in it either loads or fails
  with \<open>JSONDecodeError\<close> or \<open>ValueError\<close> (malformed JSON, a schema violation), it
  returns one summary for each file that loads, in the order of the files, and leaves
  out the others. It raises only an exception that loading one of the files raised and
  that is neither of the two.
\<close>

theorem list_presets_best_effort:
  "(\<not> path_exists env (PRESETS_DIR env) \<longrightarrow> list_presets env = Inr [])
   \<and> (path_exists env (PRESETS_DIR env)
        \<and> (\<forall>f\<in>set (glob_json env (PRESETS_DIR env)).
              \<forall>e. load_preset_file env f = Inl e \<longrightarrow> caught_by_list_presets e)
       \<longrightarrow> list_presets env = Inr (loadable_infos env (glob_json env (PRESETS_DIR env))))
   \<and> (\<forall>e. list_presets env = Inl e \<longrightarrow>
         \<not> caught_by_list_presets e
         \<and> (\<exists>f\<in>set (glob_json env (PRESETS_DIR env)). load_preset_file env f = Inl e))"
proof (intro conjI allI impI)
  assume "\<not> path_exists env (PRESETS_DIR env)"
  then show "list_presets env = Inr []" by (simp add: list_presets_def)
next
  assume a: "path_exists env (PRESETS_DIR env)
        \<and> (\<forall>f\<in>set (glob_json env (PRESETS_DIR env)).
              \<forall>e. load_preset_file env f = Inl e \<longrightarrow> caught_by_list_presets e)"
  then have "list_presets_loop env (glob_json env (PRESETS_DIR env)) [] =
      Inr ([] @ loadable_infos env (glob_json env (PRESETS_DIR env)))"
    by (intro list_presets_loop_caught) simp
  with a show "list_presets env = Inr (loadable_infos env (glob_json env (PRESETS_DIR env)))"
    by (simp add: list_presets_def)
next
  fix e assume e: "list_presets env = Inl e"
  then have "list_presets_loop env (glob_json env (PRESETS_DIR env)) [] = Inl e"
    by (simp add: list_presets_def split: if_splits)
  from list_presets_loop_raises [OF this]
  show "\<not> caught_by_list_presets e"
    and "\<exists>f\<in>set (glob_json env (PRESETS_DIR env)). load_preset_file env f = Inl e"
    by simp_all
qed

lemma example_loads:
  "load_preset_file example_env ''presets/study.json'' = Inr study_preset"
  "load_preset_file example_env ''presets/bad.json'' = Inl JSONDecodeError"
  "load_preset_file example_env ''presets/work.json'' = Inr project_preset"
  "load_preset_file example_env ''presets/hue.json'' = Inl ValueError"
  by (simp_all add: load_preset_file_def example_env_def)

text \<open>No directory; the directory of four files, two of them invalid; the locked file.\<close>

theorem list_presets_best_effort_witness:
  "\<not> path_exists bare_env (PRESETS_DIR bare_env)
   \<and> list_presets bare_env = Inr []
   \<and> path_exists example_env (PRESETS_DIR example_env)
   \<and> load_preset_file example_env ''presets/bad.json'' = Inl JSONDecodeError
   \<and> load_preset_file example_env ''presets/hue.json'' = Inl ValueError
   \<and> list_presets example_env =
       Inr [\<lparr>info_name = ''study'', info_description = None, tag_count = 1, todo_count = 2\<rparr>,
            \<lparr>info_name = ''project'', info_description = Some ''Team project'',
              tag_count = 3, todo_count = 4\<rparr>]
   \<and> list_presets locked_env = Inl (OtherException ''PermissionError'')
   \<and> \<not> caught_by_list_presets (OtherException ''PermissionError'')
   \<and> load_preset_file locked_env ''presets/locked.json'' = Inl (OtherException ''PermissionError'')"
proof -
  have a: "\<not> path_exists bare_env (PRESETS_DIR bare_env)"
    by (simp add: bare_env_def example_env_def)
  have b: "path_exists example_env (PRESETS_DIR example_env)"
    by (simp add: example_env_def)
  have g: "glob_json example_env (PRESETS_DIR example_env) =
      [''presets/study.json'', ''presets/bad.json'', ''presets/work.json'', ''presets/hue.json'']"
    by (simp add: example_env_def)
  have c: "\<forall>f\<in>set (glob_json example_env (PRESETS_DIR example_env)).
         \<forall>e. load_preset_file example_env f = Inl e \<longrightarrow> caught_by_list_presets e"
    unfolding g by (auto simp: example_loads)
  have i: "loadable_infos example_env (glob_json example_env (PRESETS_DIR example_env)) =
       [\<lparr>info_name = ''study'', info_description = None, tag_count = 1, todo_count = 2\<rparr>,
        \<lparr>info_name = ''project'', info_description = Some ''Team project'',
          tag_count = 3, todo_count = 4\<rparr>]"
    unfolding g
    by (simp add: loadable_infos_def example_loads preset_info_def study_preset_def
          project_preset_def)
  have l: "list_presets locked_env = Inl (OtherException ''PermissionError'')"
    by (simp add: list_presets_def locked_env_def example_env_def load_preset_file_def)
  have f: "load_preset_file locked_env ''presets/locked.json'' =
      Inl (OtherException ''PermissionError'')"
    by (simp add: locked_env_def example_env_def load_preset_file_def)
  from list_presets_best_effort [of bare_env] list_presets_best_effort [of example_env]
       list_presets_best_effort [of locked_env] a b c i l f
  show ?thesis by (simp add: example_loads)
qed

end
